theory Spec2Isabelle
  imports Main
begin

section \<open>The entity model of src/main.py\<close>

text \<open>
  The program defines two mapped classes over a file-backed SQLite database and two
  repositories that reach it through one session per call. The embedding keeps the
  rows of the two tables, in storage (rowid) order, as the state, and every repository
  method as a function from the stored state to a result and the stored state after
  the call. An exception leaving a method is the \<open>Inl\<close> branch of its result.

  Values are typed as the Python annotations say: \<open>str\<close> is \<open>string\<close>,
  \<open>int\<close> is \<open>int\<close>, \<open>bool\<close> is \<open>bool\<close>, and the one parameter with
  the default \<open>None\<close> (\<open>user_id\<close> of \<open>create_task\<close>) is an option. Integer
  values are taken inside the range of the engine's INTEGER storage class, and strings
  are stored as given (SQLite does not enforce the declared VARCHAR lengths).
\<close>

datatype error = IntegrityError | OperationalError

text \<open>
  Class \<open>User\<close>, table \<open>users\<close>: \<open>id\<close> (primary key), \<open>name\<close>, \<open>email\<close>
  (unique), \<open>age\<close>. The fields carry the prefix \<open>u_\<close> because \<open>id\<close> is a
  constant of HOL and both classes have an \<open>id\<close>.
\<close>

record user =
  u_id :: int
  u_name :: string
  u_email :: string
  u_age :: int

text \<open>
  Class \<open>Task\<close>, table \<open>tasks\<close>: \<open>id\<close> (primary key), \<open>title\<close>,
  \<open>description\<close>, \<open>completed\<close>, \<open>user_id\<close> (foreign key to \<open>users.id\<close>).
  The row keeps \<open>user_id\<close> as an option so that the NULL a caller can pass is a value
  of the model and the column's NOT NULL constraint is a check of the insert.
\<close>

record task =
  t_id :: int
  t_title :: string
  t_description :: string
  t_completed :: bool
  t_user_id :: "int option"

record db =
  users :: "user list"
  tasks :: "task list"

text \<open>The schema is dropped and created at start-up: both tables are empty.\<close>

definition create_all :: db where
  "create_all = \<lparr>users = [], tasks = []\<rparr>"

subsection \<open>Equality filters and update fields\<close>

text \<open>
  \<open>filter_by(**filter_by)\<close> takes a dictionary from column names to values and
  conjoins one equality per entry. A dictionary over the columns of a table is a record
  of options, \<open>None\<close> for a key that is not in the dictionary. The keys are column
  names and the values have the Python type of their column; a key that names no column
  makes \<open>filter_by\<close> raise before any statement runs and is not a filter of the model.
\<close>

record user_filter =
  fu_id :: "int option"
  fu_name :: "string option"
  fu_email :: "string option"
  fu_age :: "int option"

record task_filter =
  ft_id :: "int option"
  ft_title :: "string option"
  ft_description :: "string option"
  ft_completed :: "bool option"
  ft_user_id :: "int option"

definition no_user_filter :: user_filter where
  "no_user_filter = \<lparr>fu_id = None, fu_name = None, fu_email = None, fu_age = None\<rparr>"

definition no_task_filter :: task_filter where
  "no_task_filter =
     \<lparr>ft_id = None, ft_title = None, ft_description = None, ft_completed = None,
      ft_user_id = None\<rparr>"

definition holds :: "'a option \<Rightarrow> 'a \<Rightarrow> bool" where
  "holds c v = (case c of None \<Rightarrow> True | Some x \<Rightarrow> v = x)"

definition user_matches :: "user_filter \<Rightarrow> user \<Rightarrow> bool" where
  "user_matches f u =
     (holds (fu_id f) (u_id u) \<and> holds (fu_name f) (u_name u) \<and>
      holds (fu_email f) (u_email u) \<and> holds (fu_age f) (u_age u))"

definition task_matches :: "task_filter \<Rightarrow> task \<Rightarrow> bool" where
  "task_matches f t =
     (holds (ft_id f) (t_id t) \<and> holds (ft_title f) (t_title t) \<and>
      holds (ft_description f) (t_description t) \<and>
      holds (ft_completed f) (t_completed t) \<and>
      (case ft_user_id f of None \<Rightarrow> True | Some i \<Rightarrow> t_user_id t = Some i))"

text \<open>
  The keyword arguments of \<open>update_user\<close> are the columns to set. The primary key is
  assigned by the engine and is not among them.
\<close>

record user_fields =
  uf_name :: "string option"
  uf_email :: "string option"
  uf_age :: "int option"

definition no_fields :: "user_fields \<Rightarrow> bool" where
  "no_fields k = (uf_name k = None \<and> uf_email k = None \<and> uf_age k = None)"

definition set_fields :: "user_fields \<Rightarrow> user \<Rightarrow> user" where
  "set_fields k u =
     u\<lparr>u_name := (case uf_name k of None \<Rightarrow> u_name u | Some n \<Rightarrow> n),
       u_email := (case uf_email k of None \<Rightarrow> u_email u | Some e \<Rightarrow> e),
       u_age := (case uf_age k of None \<Rightarrow> u_age u | Some a \<Rightarrow> a)\<rparr>"

section \<open>Statements\<close>

text \<open>
  A statement runs on the tables a transaction sees. A statement that violates a
  constraint changes nothing and raises \<open>IntegrityError\<close>.
\<close>

subsection \<open>INSERT\<close>

text \<open>
  An INTEGER PRIMARY KEY that the INSERT leaves out is the rowid: 1 in an empty table,
  otherwise one more than the largest rowid in use.
\<close>

definition next_id :: "int list \<Rightarrow> int" where
  "next_id ids = (if ids = [] then 1 else Max (set ids) + 1)"

text \<open>
  \<open>User(name=name, email=email, age=age)\<close>, \<open>session.add(user)\<close> and the flush
  of \<open>session.commit()\<close>: the INSERT checks \<open>UNIQUE (email)\<close>, appends the row and
  gives the object its \<open>id\<close>.
\<close>

definition insert_user :: "db \<Rightarrow> string \<Rightarrow> string \<Rightarrow> int \<Rightarrow> error + user \<times> db" where
  "insert_user d name email age =
     (if email \<in> set (map u_email (users d)) then Inl IntegrityError
      else
        let user = \<lparr>u_id = next_id (map u_id (users d)), u_name = name,
                     u_email = email, u_age = age\<rparr>
        in Inr (user, d\<lparr>users := users d @ [user]\<rparr>))"

text \<open>
  \<open>user_id: Mapped[int]\<close> is not \<open>Optional\<close>, so the declarative mapping makes the
  column NOT NULL: a task with \<open>user_id=None\<close> fails the INSERT. The FOREIGN KEY is
  declared, and SQLite does not enforce it unless the connection turns enforcement on,
  which the program never does: any integer is accepted.
\<close>

definition insert_task ::
  "db \<Rightarrow> string \<Rightarrow> string \<Rightarrow> bool \<Rightarrow> int option \<Rightarrow> error + task \<times> db" where
  "insert_task d title description completed user_id =
     (case user_id of
        None \<Rightarrow> Inl IntegrityError
      | Some _ \<Rightarrow>
          let task = \<lparr>t_id = next_id (map t_id (tasks d)), t_title = title,
                       t_description = description, t_completed = completed,
                       t_user_id = user_id\<rparr>
          in Inr (task, d\<lparr>tasks := tasks d @ [task]\<rparr>))"

subsection \<open>UPDATE\<close>

text \<open>
  \<open>session.query(User).filter_by(**filter_by).update(kwargs)\<close> is one UPDATE
  statement over every matching row. With no column to set the statement has an empty
  SET clause and the engine refuses it. The statement is undone as a whole when a row
  would break \<open>UNIQUE (email)\<close>.
\<close>

definition update_users :: "db \<Rightarrow> user_filter \<Rightarrow> user_fields \<Rightarrow> error + db" where
  "update_users d f k =
     (if no_fields k then Inl OperationalError
      else
        let rows = map (\<lambda>u. if user_matches f u then set_fields k u else u) (users d)
        in if distinct (map u_email rows) then Inr (d\<lparr>users := rows\<rparr>)
           else Inl IntegrityError)"

subsection \<open>SELECT\<close>

text \<open>
  \<open>joinedload(User.tasks)\<close> loads with each user the tasks whose \<open>user_id\<close> is
  the user's \<open>id\<close>; a loaded \<open>User\<close> object is the row and its \<open>tasks\<close> list.
\<close>

definition tasks_of :: "db \<Rightarrow> user \<Rightarrow> task list" where
  "tasks_of d u = filter (\<lambda>t. t_user_id t = Some (u_id u)) (tasks d)"

definition joinedload :: "db \<Rightarrow> user \<Rightarrow> user \<times> task list" where
  "joinedload d u = (u, tasks_of d u)"

text \<open>\<open>.first()\<close> is the first row of the result, or \<open>None\<close>.\<close>

definition first :: "'a list \<Rightarrow> 'a option" where
  "first xs = (case xs of [] \<Rightarrow> None | x # _ \<Rightarrow> Some x)"

definition select_users :: "db \<Rightarrow> user_filter \<Rightarrow> (user \<times> task list) list" where
  "select_users d f = map (joinedload d) (filter (user_matches f) (users d))"

definition select_tasks :: "db \<Rightarrow> task_filter \<Rightarrow> task list" where
  "select_tasks d f = filter (task_matches f) (tasks d)"

text \<open>
  The aggregate query: \<open>users LEFT OUTER JOIN tasks ON users.id = tasks.user_id\<close>
  gives one joined row per task of a user and one row with a NULL task for a user with
  none; \<open>GROUP BY users.id\<close> collects the joined rows of one \<open>users.id\<close>, groups in
  the order of their first rows; \<open>count(tasks.id)\<close> counts the rows of a group whose
  task is not NULL.
\<close>

definition joined_rows :: "db \<Rightarrow> user \<Rightarrow> (user \<times> task option) list" where
  "joined_rows d u =
     (case tasks_of d u of
        [] \<Rightarrow> [(u, None)]
      | ts \<Rightarrow> map (\<lambda>t. (u, Some t)) ts)"

definition outerjoin :: "db \<Rightarrow> (user \<times> task option) list" where
  "outerjoin d = concat (map (joined_rows d) (users d))"

fun group_by :: "(user \<times> task option) list \<Rightarrow> (user \<times> task option list) list" where
  "group_by [] = []"
| "group_by ((u, t) # rows) =
     (u, t # map snd (filter (\<lambda>r. u_id (fst r) = u_id u) rows))
       # group_by (filter (\<lambda>r. u_id (fst r) \<noteq> u_id u) rows)"

definition count :: "task option list \<Rightarrow> int" where
  "count ts = int (length (filter (\<lambda>t. t \<noteq> None) ts))"

section \<open>Sessions\<close>

text \<open>
  \<open>get_session()\<close> opens a session on the engine. The session's transaction starts
  from the stored tables; \<open>commit\<close> stores what the transaction holds,
  \<open>rollback\<close> drops it, and leaving the \<open>with\<close> block closes the session, which
  drops whatever was not committed.
\<close>

record session =
  stored :: db
  txn :: db

definition get_session :: "db \<Rightarrow> session" where
  "get_session d = \<lparr>stored = d, txn = d\<rparr>"

definition commit :: "session \<Rightarrow> session" where
  "commit s = s\<lparr>stored := txn s\<rparr>"

definition rollback :: "session \<Rightarrow> session" where
  "rollback s = s\<lparr>txn := stored s\<rparr>"

definition close :: "session \<Rightarrow> db" where
  "close s = stored (rollback s)"

section \<open>UserRepository\<close>

definition create_user :: "db \<Rightarrow> string \<Rightarrow> string \<Rightarrow> int \<Rightarrow> (error + user) \<times> db" where
  "create_user d name email age =
     (let session = get_session d in
      case insert_user (txn session) name email age of
        Inr (user, t) \<Rightarrow> (Inr user, close (commit (session\<lparr>txn := t\<rparr>)))
      | Inl e \<Rightarrow> (Inl e, close (rollback session)))"

definition get_user :: "db \<Rightarrow> user_filter option \<Rightarrow> (user \<times> task list) option \<times> db" where
  "get_user d filter_by =
     (let filter_by = (case filter_by of None \<Rightarrow> no_user_filter | Some f \<Rightarrow> f);
          session = get_session d
      in (first (select_users (txn session) filter_by), close session))"

definition get_users :: "db \<Rightarrow> user_filter option \<Rightarrow> (user \<times> task list) list \<times> db" where
  "get_users d filter_by =
     (let filter_by = (case filter_by of None \<Rightarrow> no_user_filter | Some f \<Rightarrow> f);
          session = get_session d
      in (select_users (txn session) filter_by, close session))"

definition update_user ::
  "db \<Rightarrow> user_filter option \<Rightarrow> user_fields \<Rightarrow> (error + (user \<times> task list) option) \<times> db" where
  "update_user d filter_by kwargs =
     (let filter_by = (case filter_by of None \<Rightarrow> no_user_filter | Some f \<Rightarrow> f);
          session = get_session d
      in case update_users (txn session) filter_by kwargs of
           Inr t \<Rightarrow>
             (let session = commit (session\<lparr>txn := t\<rparr>)
              in (Inr (first (select_users (txn session) filter_by)), close session))
         | Inl e \<Rightarrow> (Inl e, close (rollback session)))"

definition get_users_tasks_count :: "db \<Rightarrow> (int \<times> string \<times> int) list \<times> db" where
  "get_users_tasks_count d =
     (let session = get_session d
      in (map (\<lambda>(u, ts). (u_id u, u_name u, count ts)) (group_by (outerjoin (txn session))),
          close session))"

section \<open>TaskRepository\<close>

definition create_task ::
  "db \<Rightarrow> string \<Rightarrow> string \<Rightarrow> bool \<Rightarrow> int option \<Rightarrow> (error + task) \<times> db" where
  "create_task d title description completed user_id =
     (let session = get_session d in
      case insert_task (txn session) title description completed user_id of
        Inr (task, t) \<Rightarrow> (Inr task, close (commit (session\<lparr>txn := t\<rparr>)))
      | Inl e \<Rightarrow> (Inl e, close (rollback session)))"

definition get_task :: "db \<Rightarrow> task_filter option \<Rightarrow> task option \<times> db" where
  "get_task d filter_by =
     (let filter_by = (case filter_by of None \<Rightarrow> no_task_filter | Some f \<Rightarrow> f);
          session = get_session d
      in (first (select_tasks (txn session) filter_by), close session))"

section \<open>Stored states\<close>



text \<open>
  The driver, lines 150 to 156: three users, then one task owned by the first of them.
  An exception would end the script at the call that raised it.
\<close>

definition driver :: "db option" where
  "driver =
     (case create_user create_all ''John Doe'' ''john.doe@example.com'' 30 of
        (Inl _, _) \<Rightarrow> None
      | (Inr user1, d1) \<Rightarrow>
     (case create_user d1 ''John Snow'' ''john2.doe@example.com'' 33 of
        (Inl _, _) \<Rightarrow> None
      | (Inr user2, d2) \<Rightarrow>
     (case create_user d2 ''John 3'' ''john3.doe@example.com'' 11 of
        (Inl _, _) \<Rightarrow> None
      | (Inr user3, d3) \<Rightarrow>
     (case create_task d3 ''Buy groceries'' ''Buy groceries'' False (Some (u_id user1)) of
        (Inl _, _) \<Rightarrow> None
      | (Inr task, d4) \<Rightarrow> Some d4))))"

text \<open>The stored tables the driver has built when line 156 has run.\<close>

definition driver_db :: db where
  "driver_db =
     \<lparr>users =
        [\<lparr>u_id = 1, u_name = ''John Doe'', u_email = ''john.doe@example.com'', u_age = 30\<rparr>,
         \<lparr>u_id = 2, u_name = ''John Snow'', u_email = ''john2.doe@example.com'', u_age = 33\<rparr>,
         \<lparr>u_id = 3, u_name = ''John 3'', u_email = ''john3.doe@example.com'', u_age = 11\<rparr>],
      tasks =
        [\<lparr>t_id = 1, t_title = ''Buy groceries'', t_description = ''Buy groceries'',
          t_completed = False, t_user_id = Some 1\<rparr>]\<rparr>"


section \<open>Sessions and statements: basic facts\<close>

lemma close_get_session: "close (get_session d) = d"
  by (simp add: close_def get_session_def rollback_def)

lemma close_rollback: "close (rollback (get_session d)) = d"
  by (simp add: close_def get_session_def rollback_def)

lemma close_commit: "close (commit (get_session d\<lparr>txn := t\<rparr>)) = t"
  by (simp add: close_def get_session_def rollback_def commit_def)

lemma txn_get_session: "txn (get_session d) = d"
  by (simp add: get_session_def)

lemma txn_commit: "txn (commit (get_session d\<lparr>txn := t\<rparr>)) = t"
  by (simp add: get_session_def commit_def)

lemma create_user_eq:
  "create_user d n e a =
     (case insert_user d n e a of
        Inl err \<Rightarrow> (Inl err, d)
      | Inr (u, d') \<Rightarrow> (Inr u, d'))"
  by (simp add: create_user_def Let_def txn_get_session close_rollback close_commit
      split: sum.splits prod.splits)

lemma create_task_eq:
  "create_task d ti de c uid =
     (case insert_task d ti de c uid of
        Inl err \<Rightarrow> (Inl err, d)
      | Inr (t, d') \<Rightarrow> (Inr t, d'))"
  by (simp add: create_task_def Let_def txn_get_session close_rollback close_commit
      split: sum.splits prod.splits)

lemma update_user_eq:
  "update_user d (Some f) k =
     (case update_users d f k of
        Inl err \<Rightarrow> (Inl err, d)
      | Inr d' \<Rightarrow> (Inr (first (select_users d' f)), d'))"
  by (simp add: update_user_def Let_def txn_get_session close_rollback close_commit
      txn_commit split: sum.splits prod.splits)

section \<open>The constraints hold in every reachable state\<close>

lemma next_id_fresh: "next_id ids \<notin> set ids"
proof (cases "ids = []")
  case True
  then show ?thesis by simp
next
  case False
  have "\<forall>x\<in>set ids. x \<le> Max (set ids)" by simp
  then have "Max (set ids) + 1 \<notin> set ids" by fastforce
  with False show ?thesis by (simp add: next_id_def)
qed







section \<open>The first row of a filtered table\<close>

lemma first_filter_None: "first (filter P xs) = None \<longleftrightarrow> (\<forall>x\<in>set xs. \<not> P x)"
  by (induction xs) (auto simp: first_def)

lemma first_filter_Some:
  "first (filter P xs) = Some x \<longleftrightarrow>
     (\<exists>pre post. xs = pre @ x # post \<and> P x \<and> (\<forall>y\<in>set pre. \<not> P y))"
proof (induction xs)
  case Nil
  then show ?case by (simp add: first_def)
next
  case (Cons a xs)
  show ?case
  proof (cases "P a")
    case True
    have "(\<exists>pre post. a # xs = pre @ x # post \<and> P x \<and> (\<forall>y\<in>set pre. \<not> P y)) \<longleftrightarrow> a = x"
    proof
      assume "\<exists>pre post. a # xs = pre @ x # post \<and> P x \<and> (\<forall>y\<in>set pre. \<not> P y)"
      then obtain pre post where *: "a # xs = pre @ x # post" "\<forall>y\<in>set pre. \<not> P y" by blast
      with True show "a = x" by (cases pre) auto
    next
      assume "a = x"
      with True have "a # xs = [] @ x # xs \<and> P x \<and> (\<forall>y\<in>set []. \<not> P y)" by simp
      then show "\<exists>pre post. a # xs = pre @ x # post \<and> P x \<and> (\<forall>y\<in>set pre. \<not> P y)" by blast
    qed
    with True show ?thesis by (simp add: first_def)
  next
    case False
    have "(\<exists>pre post. a # xs = pre @ x # post \<and> P x \<and> (\<forall>y\<in>set pre. \<not> P y)) \<longleftrightarrow>
          (\<exists>pre post. xs = pre @ x # post \<and> P x \<and> (\<forall>y\<in>set pre. \<not> P y))" (is "?L \<longleftrightarrow> ?R")
    proof
      assume ?L
      then obtain pre post where *: "a # xs = pre @ x # post" "P x" "\<forall>y\<in>set pre. \<not> P y" by blast
      with False obtain pre' where "pre = a # pre'" by (cases pre) auto
      with * have "xs = pre' @ x # post \<and> P x \<and> (\<forall>y\<in>set pre'. \<not> P y)" by simp
      then show ?R by blast
    next
      assume ?R
      then obtain pre post where *: "xs = pre @ x # post" "P x" "\<forall>y\<in>set pre. \<not> P y" by blast
      with False have "a # xs = (a # pre) @ x # post \<and> P x \<and> (\<forall>y\<in>set (a # pre). \<not> P y)" by simp
      then show ?L by blast
    qed
    with False Cons.IH show ?thesis by (simp add: first_def)
  qed
qed

lemma first_map: "first (map g xs) = map_option g (first xs)"
  by (cases xs) (simp_all add: first_def)

lemma get_user_eq:
  "get_user d (Some f) = (map_option (joinedload d) (first (filter (user_matches f) (users d))), d)"
  by (simp add: get_user_def Let_def txn_get_session close_get_session select_users_def first_map)


section \<open>The aggregate query\<close>

lemma joined_rows_fst: "r \<in> set (joined_rows d u) \<Longrightarrow> fst r = u"
  by (auto simp: joined_rows_def split: list.splits)

lemma joined_rows_not_Nil: "joined_rows d u \<noteq> []"
  by (simp add: joined_rows_def split: list.splits)

lemma count_joined_rows: "count (map snd (joined_rows d u)) = int (length (tasks_of d u))"
  by (simp add: joined_rows_def count_def comp_def split: list.splits)

lemma group_by_concat:
  assumes "distinct (map u_id us)"
    and "\<And>u. u \<in> set us \<Longrightarrow> g u \<noteq> []"
    and "\<And>u r. u \<in> set us \<Longrightarrow> r \<in> set (g u) \<Longrightarrow> fst r = u"
  shows "group_by (concat (map g us)) = map (\<lambda>u. (u, map snd (g u))) us"
  using assms
proof (induction us)
  case Nil
  then show ?case by simp
next
  case (Cons u us)
  let ?C = "concat (map g us)"
  from Cons.prems(2) [of u] obtain r rest where gu: "g u = r # rest"
    by (cases "g u") auto
  have fst_gu: "\<forall>x\<in>set (g u). fst x = u"
    using Cons.prems(3) [of u] by simp
  then have r: "r = (u, snd r)" using gu by (cases r) auto
  have rest_same: "filter (\<lambda>x. u_id (fst x) = u_id u) rest = rest"
    using fst_gu gu by (auto intro: filter_True)
  have rest_other: "filter (\<lambda>x. u_id (fst x) \<noteq> u_id u) rest = []"
    using fst_gu gu by (auto simp: filter_empty_conv)
  have C_ids: "\<forall>x\<in>set ?C. u_id (fst x) \<noteq> u_id u"
  proof
    fix x assume "x \<in> set ?C"
    then obtain v where v: "v \<in> set us" "x \<in> set (g v)" by auto
    then have "fst x = v" using Cons.prems(3) [of v x] by simp
    moreover from Cons.prems(1) have "u_id u \<notin> u_id ` set us" by simp
    ultimately show "u_id (fst x) \<noteq> u_id u" using v(1) by (metis imageI)
  qed
  then have C_same: "filter (\<lambda>x. u_id (fst x) = u_id u) ?C = []"
    by (auto simp: filter_empty_conv)
  from C_ids have C_other: "filter (\<lambda>x. u_id (fst x) \<noteq> u_id u) ?C = ?C"
    by (auto intro: filter_True)
  have IH: "group_by ?C = map (\<lambda>u. (u, map snd (g u))) us"
    using Cons.prems by (intro Cons.IH) auto
  have "group_by (concat (map g (u # us))) = group_by ((u, snd r) # rest @ ?C)"
    using gu r by simp
  also have "\<dots> = (u, snd r # map snd rest) # group_by ?C"
    by (simp add: rest_same rest_other C_same C_other)
  also have "\<dots> = map (\<lambda>u. (u, map snd (g u))) (u # us)"
    using IH gu by simp
  finally show ?case .
qed

lemma get_users_tasks_count_eq:
  assumes "distinct (map u_id (users d))"
  shows "fst (get_users_tasks_count d) =
     map (\<lambda>u. (u_id u, u_name u, int (length (tasks_of d u)))) (users d)"
proof -
  have "group_by (outerjoin d) = map (\<lambda>u. (u, map snd (joined_rows d u))) (users d)"
    unfolding outerjoin_def
    using assms by (intro group_by_concat) (auto simp: joined_rows_not_Nil dest: joined_rows_fst)
  then show ?thesis
    by (simp add: get_users_tasks_count_def Let_def txn_get_session comp_def count_joined_rows)
qed

lemma owner_count_zero:
  "i \<notin> u_id ` set us \<Longrightarrow> sum_list (map (\<lambda>u. if i = u_id u then 1 else (0::int)) us) = 0"
  by (induction us) auto

lemma owner_count_one:
  "distinct (map u_id us) \<Longrightarrow> i \<in> u_id ` set us \<Longrightarrow>
     sum_list (map (\<lambda>u. if i = u_id u then 1 else (0::int)) us) = 1"
proof (induction us)
  case Nil
  then show ?case by simp
next
  case (Cons u us)
  show ?case
  proof (cases "i = u_id u")
    case True
    with Cons.prems(1) have "i \<notin> u_id ` set us" by simp
    with True show ?thesis by (simp add: owner_count_zero)
  next
    case False
    with Cons show ?thesis by simp
  qed
qed

lemma sum_counts:
  assumes "distinct (map u_id us)"
    and "\<forall>t\<in>set ts. \<exists>u\<in>set us. t_user_id t = Some (u_id u)"
  shows "sum_list (map (\<lambda>u. int (length (filter (\<lambda>t. t_user_id t = Some (u_id u)) ts))) us) =
     int (length ts)"
  using assms(2)
proof (induction ts)
  case Nil
  then show ?case by simp
next
  case (Cons t ts)
  from Cons.prems obtain i where i: "t_user_id t = Some i" "i \<in> u_id ` set us"
    by auto
  have "sum_list (map (\<lambda>u. int (length (filter (\<lambda>t. t_user_id t = Some (u_id u)) (t # ts)))) us) =
        sum_list (map (\<lambda>u. (if i = u_id u then 1 else 0) +
           int (length (filter (\<lambda>t. t_user_id t = Some (u_id u)) ts))) us)"
    by (rule arg_cong [where f = sum_list], rule map_cong) (simp_all add: i(1))
  also have "\<dots> = sum_list (map (\<lambda>u. if i = u_id u then 1 else 0) us) +
      sum_list (map (\<lambda>u. int (length (filter (\<lambda>t. t_user_id t = Some (u_id u)) ts))) us)"
    by (rule sum_list_addf)
  also have "\<dots> = 1 + int (length ts)"
    using Cons owner_count_one [OF assms(1) i(2)] by simp
  finally show ?case by simp
qed

lemma driver_eq: "driver = Some driver_db"
  by (simp add: driver_def driver_db_def create_user_eq create_task_eq insert_user_def
      insert_task_def create_all_def next_id_def Let_def)


section \<open>Fresh identifiers and updated rows\<close>

lemma owned_tasks_not_fresh:
  assumes "\<forall>t\<in>set (tasks d). \<exists>u\<in>set (users d). t_user_id t = Some (u_id u)"
  shows "\<forall>t\<in>set (tasks d). t_user_id t \<noteq> Some (next_id (map u_id (users d)))"
proof
  fix t assume "t \<in> set (tasks d)"
  with assms obtain u where u: "u \<in> set (users d)" "t_user_id t = Some (u_id u)" by blast
  from u(1) have "u_id u \<in> set (map u_id (users d))" by simp
  then have "u_id u \<noteq> next_id (map u_id (users d))"
    using next_id_fresh [of "map u_id (users d)"] by metis
  with u(2) show "t_user_id t \<noteq> Some (next_id (map u_id (users d)))" by simp
qed


section \<open>Reading leaves the stored state alone\<close>

text \<open>
  Claim C9. The read operations \<open>get_user\<close>, \<open>get_users\<close>, \<open>get_task\<close> and
  \<open>get_users_tasks_count\<close> leave the stored state unchanged, for every state and
  every filter: the stored tables after the call are the stored tables before it.
\<close>

theorem reads_leave_state:
  "snd (get_user d f) = d \<and> snd (get_users d f) = d \<and> snd (get_task d g) = d \<and>
   snd (get_users_tasks_count d) = d"
  by (simp add: get_user_def get_users_def get_task_def get_users_tasks_count_def
      close_get_session Let_def)

section \<open>An omitted filter is the empty filter\<close>

text \<open>
  Claim C10. Passing no filter (\<open>None\<close>) to \<open>get_user\<close>, \<open>get_users\<close>,
  \<open>get_task\<close> or \<open>update_user\<close> is the same call as passing the empty
  dictionary: the same result and the same stored state afterwards.
\<close>

theorem omitted_filter_is_empty:
  "get_user d None = get_user d (Some no_user_filter) \<and>
   get_users d None = get_users d (Some no_user_filter) \<and>
   get_task d None = get_task d (Some no_task_filter) \<and>
   update_user d None kwargs = update_user d (Some no_user_filter) kwargs"
  by (simp add: get_user_def get_users_def get_task_def update_user_def)

section \<open>A task without an owner\<close>

text \<open>
  Claim C7 says that \<open>create_task\<close> called without a \<open>user_id\<close> succeeds and
  stores an unowned task. On the code the call raises: the INSERT fails the NOT NULL
  constraint of \<open>tasks.user_id\<close>, the session is rolled back, and no task is stored,
  so \<open>get_task\<close> finds none.
\<close>

theorem create_task_without_owner_raises:
  "create_task create_all ''Buy groceries'' ''Buy groceries'' False None =
     (Inl IntegrityError, create_all) \<and>
   fst (get_task
     (snd (create_task create_all ''Buy groceries'' ''Buy groceries'' False None)) None) = None"
  by (simp add: create_task_eq insert_task_def get_task_def select_tasks_def first_def
      create_all_def Let_def txn_get_session)

section \<open>Commit, rollback and the error a caller sees\<close>

text \<open>
  Claim C2. Every mutating operation (\<open>create_user\<close>, \<open>create_task\<close>,
  \<open>update_user\<close>) is atomic. When it returns, the stored state is the one its
  statement produced, committed. When it raises, the stored state is the one before the
  call (nothing partial is kept) and the error raised is the very error of the failed
  statement, with no retry and no translation. For \<open>update_user\<close> the value returned
  is what \<open>get_user\<close> finds for the same filter in the committed state.
\<close>

theorem mutations_atomic:
  "(case create_user d name email age of
      (Inl e, d') \<Rightarrow> d' = d \<and> insert_user d name email age = Inl e
    | (Inr u, d') \<Rightarrow> insert_user d name email age = Inr (u, d')) \<and>
   (case create_task d title description completed user_id of
      (Inl e, d') \<Rightarrow> d' = d \<and> insert_task d title description completed user_id = Inl e
    | (Inr t, d') \<Rightarrow> insert_task d title description completed user_id = Inr (t, d')) \<and>
   (case update_user d (Some f) kwargs of
      (Inl e, d') \<Rightarrow> d' = d \<and> update_users d f kwargs = Inl e
    | (Inr r, d') \<Rightarrow> update_users d f kwargs = Inr d' \<and> r = fst (get_user d' (Some f)))"
  by (simp add: create_user_eq create_task_eq update_user_eq get_user_eq select_users_def
      first_map split: sum.splits prod.splits)

lemma dup_email:
  "create_user driver_db ''Jon'' ''john.doe@example.com'' 40 = (Inl IntegrityError, driver_db)"
  by (simp add: create_user_eq insert_user_def driver_db_def)

theorem mutations_atomic_witness:
  "snd (create_user driver_db ''Jon'' ''john.doe@example.com'' 40) = driver_db \<and>
   insert_user driver_db ''Jon'' ''john.doe@example.com'' 40 = Inl IntegrityError"
  using mutations_atomic [of driver_db "''Jon''" "''john.doe@example.com''" 40]
  by (simp add: dup_email)

section \<open>The first match of a filter\<close>



section \<open>A task created for a stored user is among the user's tasks\<close>

text \<open>
  Claim C8. For every id \<open>U\<close> of a stored user, \<open>create_task\<close> with
  \<open>user_id=U\<close> succeeds and returns the task with the given fields, and
  \<open>get_user({"id": U})\<close> on the state it leaves returns the user with id \<open>U\<close>
  whose tasks contain that task.
\<close>

theorem created_task_is_loaded:
  assumes "U \<in> set (map u_id (users d))"
  shows "\<exists>t d' u ts.
     create_task d title description completed (Some U) = (Inr t, d') \<and>
     t_title t = title \<and> t_description t = description \<and> t_completed t = completed \<and>
     t_user_id t = Some U \<and>
     get_user d' (Some (no_user_filter\<lparr>fu_id := Some U\<rparr>)) = (Some (u, ts), d') \<and>
     u_id u = U \<and> t \<in> set ts"
proof -
  let ?f = "no_user_filter\<lparr>fu_id := Some U\<rparr>"
  let ?t = "\<lparr>t_id = next_id (map t_id (tasks d)), t_title = title,
             t_description = description, t_completed = completed, t_user_id = Some U\<rparr>"
  let ?d' = "d\<lparr>tasks := tasks d @ [?t]\<rparr>"
  have ct: "create_task d title description completed (Some U) = (Inr ?t, ?d')"
    by (simp add: create_task_eq insert_task_def Let_def)
  have m: "user_matches ?f u \<longleftrightarrow> u_id u = U" for u
    by (simp add: user_matches_def holds_def no_user_filter_def)
  from assms have "\<not> (\<forall>u\<in>set (users d). \<not> user_matches ?f u)"
    by (auto simp: m)
  then have "first (filter (user_matches ?f) (users d)) \<noteq> None"
    by (simp add: first_filter_None)
  then obtain u where fu: "first (filter (user_matches ?f) (users d)) = Some u"
    by blast
  then have "user_matches ?f u"
    by (auto simp: first_filter_Some)
  then have uid: "u_id u = U" by (simp add: m)
  have gu: "get_user ?d' (Some ?f) = (Some (u, tasks_of ?d' u), ?d')"
    by (simp add: get_user_eq fu joinedload_def)
  have "?t \<in> set (tasks_of ?d' u)"
    by (simp add: tasks_of_def uid)
  with ct gu uid show ?thesis by force
qed

theorem created_task_is_loaded_witness:
  "(1::int) \<in> set (map u_id (users driver_db)) \<and>
   (\<exists>t d' u ts.
     create_task driver_db ''Call'' ''Call home'' True (Some 1) = (Inr t, d') \<and>
     t_title t = ''Call'' \<and> t_description t = ''Call home'' \<and> t_completed t = True \<and>
     t_user_id t = Some 1 \<and>
     get_user d' (Some (no_user_filter\<lparr>fu_id := Some 1\<rparr>)) = (Some (u, ts), d') \<and>
     u_id u = 1 \<and> t \<in> set ts)"
proof -
  have h: "(1::int) \<in> set (map u_id (users driver_db))"
    by (simp add: driver_db_def)
  from created_task_is_loaded [OF h] h show ?thesis by blast
qed

section \<open>Creating a user and reading it back\<close>




section \<open>Emails are unique\<close>



section \<open>Updating users\<close>



section \<open>Counting the tasks of every user\<close>

text \<open>
  Claim C5. \<open>get_users_tasks_count()\<close> returns one row \<open>(id, name, count)\<close> for
  every stored user, in storage order, where \<open>count\<close> is the number of tasks whose
  \<open>user_id\<close> is the user's id, 0 for a user without tasks. When every task belongs to
  a stored user the counts add up to the number of tasks. In the state the driver builds
  (three users, one task of the first user) the rows have the counts 1, 0 and 0, and
  their sum is the number of stored tasks.
\<close>

theorem tasks_count_per_user:
  "(distinct (map u_id (users d)) \<longrightarrow>
      fst (get_users_tasks_count d) =
        map (\<lambda>u. (u_id u, u_name u,
                   int (length (filter (\<lambda>t. t_user_id t = Some (u_id u)) (tasks d)))))
          (users d)) \<and>
   (distinct (map u_id (users d)) \<and>
    (\<forall>t\<in>set (tasks d). \<exists>u\<in>set (users d). t_user_id t = Some (u_id u)) \<longrightarrow>
      sum_list (map (\<lambda>(i, n, c). c) (fst (get_users_tasks_count d))) =
        int (length (tasks d))) \<and>
   driver = Some driver_db \<and>
   fst (get_users_tasks_count driver_db) =
     [(1, ''John Doe'', 1), (2, ''John Snow'', 0), (3, ''John 3'', 0)] \<and>
   sum_list (map (\<lambda>(i, n, c). c) (fst (get_users_tasks_count driver_db))) =
     int (length (tasks driver_db))"
proof -
  have g: "fst (get_users_tasks_count d) =
        map (\<lambda>u. (u_id u, u_name u,
                   int (length (filter (\<lambda>t. t_user_id t = Some (u_id u)) (tasks d)))))
          (users d)" if "distinct (map u_id (users d))" for d
    using get_users_tasks_count_eq [OF that] by (simp add: tasks_of_def)
  have s: "sum_list (map (\<lambda>(i, n, c). c) (fst (get_users_tasks_count d))) =
        int (length (tasks d))"
    if "distinct (map u_id (users d))"
      and "\<forall>t\<in>set (tasks d). \<exists>u\<in>set (users d). t_user_id t = Some (u_id u)"
    using sum_counts [OF that] by (simp add: g [OF that(1)] comp_def)
  have "distinct (map u_id (users driver_db))"
    by (simp add: driver_db_def)
  from g [OF this] have c: "fst (get_users_tasks_count driver_db) =
     [(1, ''John Doe'', 1), (2, ''John Snow'', 0), (3, ''John 3'', 0)]"
    by (simp add: driver_db_def)
  have "sum_list (map (\<lambda>(i, n, c). c) (fst (get_users_tasks_count driver_db))) =
     int (length (tasks driver_db))"
    unfolding c by (simp add: driver_db_def)
  with g s c driver_eq show ?thesis by blast
qed

theorem tasks_count_per_user_witness:
  "distinct (map u_id (users driver_db)) \<and>
   list_all (\<lambda>t. list_ex (\<lambda>u. t_user_id t = Some (u_id u)) (users driver_db))
     (tasks driver_db) \<and>
   fst (get_users_tasks_count driver_db) =
     map (\<lambda>u. (u_id u, u_name u,
                int (length (filter (\<lambda>t. t_user_id t = Some (u_id u)) (tasks driver_db)))))
       (users driver_db) \<and>
   sum_list (map (\<lambda>(i, n, c). c) (fst (get_users_tasks_count driver_db))) =
     int (length (tasks driver_db))"
proof -
  have h: "distinct (map u_id (users driver_db))"
    by (simp add: driver_db_def)
  have o: "\<forall>t\<in>set (tasks driver_db). \<exists>u\<in>set (users driver_db). t_user_id t = Some (u_id u)"
    by (simp add: driver_db_def)
  have l: "list_all (\<lambda>t. list_ex (\<lambda>u. t_user_id t = Some (u_id u)) (users driver_db))
     (tasks driver_db)"
    by (simp add: driver_db_def)
  from tasks_count_per_user [of driver_db] h o
  have "fst (get_users_tasks_count driver_db) =
     map (\<lambda>u. (u_id u, u_name u,
                int (length (filter (\<lambda>t. t_user_id t = Some (u_id u)) (tasks driver_db)))))
       (users driver_db)"
    and "sum_list (map (\<lambda>(i, n, c). c) (fst (get_users_tasks_count driver_db))) =
     int (length (tasks driver_db))"
    by blast+
  with h l show ?thesis by (intro conjI)
qed

end
